theory Spec2Isabelle
  imports Main "HOL-Library.Word" "HOL-Library.Signed_Division" "HOL-Library.Multiset"
begin

unbundle bit_operations_syntax

section \<open>Go values\<close>

text \<open>
  Go's \<open>int64\<close> is a 64-bit word read in two's complement (\<open>sint\<close>); \<open>+\<close> and \<open>*\<close>
  wrap around, comparisons are the signed ones (\<open>\<le>s\<close>, \<open><s\<close>).  A \<open>[]byte\<close> is a
  list of 8-bit words, a Go \<open>string\<close> a list of bytes written as characters.
\<close>

type_synonym int64 = "64 word"
type_synonym byte = "8 word"
type_synonym bytes = "byte list"

text \<open>
  Go's integer division truncates towards zero, and the most negative value divided
  by \<open>-1\<close> wraps to itself.  The divisor \<open>0\<close> panics at run time: callers test it first.
\<close>

definition go_div :: "int64 \<Rightarrow> int64 \<Rightarrow> int64" where
  "go_div a b = word_of_int (sint a sdiv sint b)"

section \<open>\<open>encoding/hex\<close>\<close>

datatype hex_error = ErrLength | InvalidByteError char

text \<open>\<open>fromHexChar\<close>: the value of one hexadecimal digit, either case.\<close>

definition fromHexChar :: "char \<Rightarrow> byte option" where
  "fromHexChar c =
     (let n = (of_char c :: nat) in
      if 48 \<le> n \<and> n \<le> 57 then Some (of_nat (n - 48))
      else if 97 \<le> n \<and> n \<le> 102 then Some (of_nat (n - 97 + 10))
      else if 65 \<le> n \<and> n \<le> 70 then Some (of_nat (n - 65 + 10))
      else None)"

text \<open>
  \<open>hex.Decode\<close> reads the digits in pairs from the left and stops at the first
  character that is no digit; a single character left over is checked before the odd
  length is reported.  \<open>hex.DecodeString\<close> returns the bytes together with the error;
  its caller here drops the bytes when there is an error.
\<close>

fun hex_DecodeString :: "string \<Rightarrow> hex_error + bytes" where
  "hex_DecodeString [] = Inr []"
| "hex_DecodeString [c] =
     (case fromHexChar c of
        None \<Rightarrow> Inl (InvalidByteError c)
      | Some _ \<Rightarrow> Inl ErrLength)"
| "hex_DecodeString (a # b # rest) =
     (case fromHexChar a of
        None \<Rightarrow> Inl (InvalidByteError a)
      | Some x \<Rightarrow>
          (case fromHexChar b of
             None \<Rightarrow> Inl (InvalidByteError b)
           | Some y \<Rightarrow>
               (case hex_DecodeString rest of
                  Inl e \<Rightarrow> Inl e
                | Inr bs \<Rightarrow> Inr ((push_bit 4 x OR y) # bs))))"

text \<open>\<open>hex.EncodeToString\<close>: two lower-case digits per byte.\<close>

definition hextable :: string where
  "hextable = ''0123456789abcdef''"

fun hex_EncodeToString :: "bytes \<Rightarrow> string" where
  "hex_EncodeToString [] = []"
| "hex_EncodeToString (v # vs) =
     (hextable ! unat (drop_bit 4 v)) # (hextable ! unat (v AND 15)) # hex_EncodeToString vs"

section \<open>Network identifiers\<close>

datatype net_id_fault = HexFault hex_error | NetIdEmpty | NetIdTooLong

datatype sdk_Error =
    ErrInvalidNetworkIdentifier net_id_fault
  | InvalidProofsError
  | InvalidMerkleVerifyError
  | InvalidTokenError
  | InvalidSignatureError

definition NetworkIdentifierLength :: nat where
  "NetworkIdentifierLength = 2"

definition ValidateNetworkIdentifier :: "string \<Rightarrow> sdk_Error option" where
  "ValidateNetworkIdentifier chain =
     (case hex_DecodeString chain of
        Inl err \<Rightarrow> Some (ErrInvalidNetworkIdentifier (HexFault err))
      | Inr h \<Rightarrow>
          if length h = 0 then Some (ErrInvalidNetworkIdentifier NetIdEmpty)
          else if length h > NetworkIdentifierLength then Some (ErrInvalidNetworkIdentifier NetIdTooLong)
          else None)"

text \<open>
  What "valid hexadecimal" means, independently of the decoder: an even number of
  characters, each a hexadecimal digit.
\<close>

definition isHexDigit :: "char \<Rightarrow> bool" where
  "isHexDigit c =
     (let n = (of_char c :: nat) in
      (48 \<le> n \<and> n \<le> 57) \<or> (97 \<le> n \<and> n \<le> 102) \<or> (65 \<le> n \<and> n \<le> 70))"

definition valid_hex :: "string \<Rightarrow> bool" where
  "valid_hex s = (even (length s) \<and> list_all isHexDigit s)"

section \<open>\<open>strconv.ParseInt\<close> in base 16 with 64 bits\<close>

datatype num_error = ErrSyntax | ErrRange

text \<open>
  The digit loop of \<open>strconv.ParseUint\<close>: digits and letters of either case are
  valued, a value of 16 or more is a syntax error in base 16.
\<close>

definition digit_value :: "char \<Rightarrow> nat option" where
  "digit_value c =
     (let n = (of_char c :: nat) in
      if 48 \<le> n \<and> n \<le> 57 then Some (n - 48)
      else if 97 \<le> n \<and> n \<le> 122 then Some (n - 97 + 10)
      else if 65 \<le> n \<and> n \<le> 90 then Some (n - 65 + 10)
      else None)"

text \<open>
  \<open>ParseUint\<close> accumulates in a \<open>uint64\<close>: before multiplying it compares with the
  cutoff \<open>maxUint64 / 16 + 1 = 2 ^ 60\<close>, after adding the digit it checks for
  wrap-around.  A range error is returned at once, before the remaining characters are
  looked at.
\<close>

fun ParseUint_loop :: "nat \<Rightarrow> string \<Rightarrow> num_error + nat" where
  "ParseUint_loop n [] = Inr n"
| "ParseUint_loop n (c # cs) =
     (case digit_value c of
        None \<Rightarrow> Inl ErrSyntax
      | Some d \<Rightarrow>
          if d \<ge> 16 then Inl ErrSyntax
          else if n \<ge> 2 ^ 60 then Inl ErrRange
          else if n * 16 + d \<ge> 2 ^ 64 then Inl ErrRange
          else ParseUint_loop (n * 16 + d) cs)"

definition ParseUint :: "string \<Rightarrow> num_error + nat" where
  "ParseUint s = (if s = [] then Inl ErrSyntax else ParseUint_loop 0 s)"

text \<open>
  \<open>ParseInt(s, 16, 64)\<close>: an optional sign, then \<open>ParseUint\<close>; an unsigned value
  of \<open>2 ^ 63\<close> or more does not fit the signed result and is a range error (as is
  a magnitude above \<open>2 ^ 63\<close> after a minus sign).
\<close>

definition ParseInt :: "string \<Rightarrow> num_error + int64" where
  "ParseInt s =
     (if s = [] then Inl ErrSyntax
      else
        let neg = (hd s = CHR ''-'');
            s1 = (if hd s = CHR ''+'' \<or> hd s = CHR ''-'' then tl s else s)
        in case ParseUint s1 of
             Inl e \<Rightarrow> Inl e
           | Inr un \<Rightarrow>
               if \<not> neg \<and> un \<ge> 2 ^ 63 then Inl ErrRange
               else if neg \<and> un > 2 ^ 63 then Inl ErrRange
               else Inr (if neg then - of_nat un else of_nat un))"

section \<open>\<open>encoding/json\<close> on a struct of strings\<close>

text \<open>
  \<open>json.Marshal\<close> writes the exported fields of a struct only: the fields whose name
  starts with an upper-case letter.  The others are skipped without an error.  The
  values written here are hexadecimal strings, which need no escaping.
\<close>

definition exported :: "string \<Rightarrow> bool" where
  "exported name =
     (case name of
        [] \<Rightarrow> False
      | c # _ \<Rightarrow> 65 \<le> (of_char c :: nat) \<and> (of_char c :: nat) \<le> 90)"

definition json_member :: "string \<times> string \<Rightarrow> string" where
  "json_member kv =
     [CHR 0x22] @ fst kv @ [CHR 0x22] @ '':'' @ [CHR 0x22] @ snd kv @ [CHR 0x22]"

fun join_comma :: "string list \<Rightarrow> string" where
  "join_comma [] = []"
| "join_comma [x] = x"
| "join_comma (x # y # zs) = x @ '','' @ join_comma (y # zs)"

definition json_Marshal_fields :: "(string \<times> string) list \<Rightarrow> string" where
  "json_Marshal_fields fields =
     ''{'' @ join_comma (map json_member (filter (\<lambda>kv. exported (fst kv)) fields)) @ ''}''"

section \<open>Sessions, claims and the chain context\<close>

type_synonym Address = bytes

record Header =
  ApplicationPubKey :: string
  Chain :: string
  SessionBlockHeight :: int64

text \<open>The application authentication token of a relay.\<close>

record AAT =
  ApplicationPublicKey :: string
  ClientPublicKey :: string
  ApplicationSignature :: string

text \<open>A relay proof: one leaf of the session's Merkle tree.\<close>

record Proof =
  Index :: int64
  Token :: AAT
  Signature :: string

type_synonym MerkleProof = "(bytes \<times> bool) list"

text \<open>
  The Merkle tree of the \<open>merkle\<close> library is kept as the list of its leaves'
  contents; what the library computes from it is a parameter (\<open>GetMerkleRoot\<close>,
  \<open>GetMerkleProof\<close>, \<open>VerifyProof\<close> below).
\<close>

type_synonym Tree = "bytes list"

text \<open>
  \<open>MsgProof\<close> is the first transaction of a session (it commits to the number of
  relays and to the Merkle root); \<open>MsgClaimProof\<close> is the second one (it reveals one
  leaf with its branch).  \<open>ProofOfRelay\<close> is the evidence of a session, in memory
  and, once verified, in the state.  The three embed or carry the session header.
\<close>

record MsgProof =
  MsgProof_Header :: Header
  MsgProof_TotalRelays :: int64
  MsgProof_Root :: bytes
  MsgProof_FromAddress :: Address

record MsgClaimProof =
  MsgClaimProof_MerkleProof :: MerkleProof
  MsgClaimProof_LeafNode :: Proof
  MsgClaimProof_FromAddress :: Address

record ProofOfRelay =
  por_Header :: Header
  por_TotalRelays :: int64
  por_Proofs :: "Proof list"
  por_Tree :: Tree

text \<open>The zero values \<open>pc.Header{}\<close> and \<open>pc.MsgProof{}\<close>.\<close>

definition Header_zero :: Header where
  "Header_zero = \<lparr>ApplicationPubKey = [], Chain = [], SessionBlockHeight = 0\<rparr>"

definition MsgProof_zero :: MsgProof where
  "MsgProof_zero =
     \<lparr>MsgProof_Header = Header_zero, MsgProof_TotalRelays = 0, MsgProof_Root = [],
      MsgProof_FromAddress = []\<rparr>"

text \<open>
  The context of a call: the block height it is set to and the module's two key-value
  namespaces, each as the list of its entries in iteration order.  An entry's key is
  built from the node's address and the session header; its value is the stored
  message (the binary encoding is one-to-one and is left out).
\<close>

record Context =
  BlockHeight :: int64
  UnverifiedProofs :: "((Address \<times> Header) \<times> MsgProof) list"
  VerifiedProofs :: "((Address \<times> Header) \<times> ProofOfRelay) list"

definition WithBlockHeight :: "Context \<Rightarrow> int64 \<Rightarrow> Context" where
  "WithBlockHeight ctx h = ctx\<lparr>BlockHeight := h\<rparr>"

record Account =
  AccountNumber :: nat
  Sequence :: nat

text \<open>
  What the keeper reads through a context or calls in packages that are not part of
  these sources: the governance parameters, the supported chains, the block header,
  the hash functions, the Merkle library, the codec and the account retriever.
  \<open>GetMerkleRoot\<close> and \<open>GetMerkleProof\<close> are \<open>None\<close> where the library returns an
  error, \<open>GetAccount\<close> where the account retriever does.
  \<open>cdc_rejects_value\<close> says whether the codec panics when \<open>MustUnmarshalBinaryBare\<close>
  is handed a value that is no pointer.
\<close>

record Keeper =
  ProofWaitingPeriod :: "Context \<Rightarrow> int64"
  SessionFrequency :: "Context \<Rightarrow> int64"
  UnverifiedProofExpiration :: "Context \<Rightarrow> int64"
  IsPocketSupportedBlockchain :: "Context \<Rightarrow> string \<Rightarrow> bool"
  LastBlockIdHash :: "Context \<Rightarrow> bytes"
  SHA3FromBytes :: "bytes \<Rightarrow> bytes"
  HashString :: "Header \<Rightarrow> string"
  Proof_Hash :: "Proof \<Rightarrow> bytes"
  Proof_HashString :: "Proof \<Rightarrow> string"
  VerifyProof :: "MerkleProof \<Rightarrow> bytes \<Rightarrow> bytes \<Rightarrow> bool"
  token_valid :: "AAT \<Rightarrow> bool"
  signature_valid :: "string \<Rightarrow> string \<Rightarrow> string \<Rightarrow> bool"
  GetMerkleRoot :: "Tree \<Rightarrow> bytes option"
  GenerateMerkleTree :: "Proof list \<Rightarrow> Tree"
  GetMerkleProof :: "Tree \<Rightarrow> int64 \<Rightarrow> MerkleProof option"
  StakeDenom :: "Context \<Rightarrow> string"
  GetAccount :: "Address \<Rightarrow> Account option"
  cdc_rejects_value :: bool

datatype panic =
    MarshalPanic
  | SliceBoundsPanic
  | ParsePanic num_error
  | UnmarshalPanic
  | DivideByZeroPanic
  | AccountPanic
  | MerkleRootPanic
  | MerkleProofPanic
  | NilPointerPanic
  | TxPanic

datatype 'a outcome = Returned 'a | Panicked panic

section \<open>The pseudorandom index\<close>

text \<open>
  \<open>pseudorandomGenerator\<close> has the two fields \<open>blockHash\<close> and \<open>header\<close>, both
  written in lower case.  Marshalling a struct of strings cannot fail.
\<close>

record pseudorandomGenerator =
  blockHash :: string
  header :: string

definition json_Marshal_pseudorandomGenerator :: "pseudorandomGenerator \<Rightarrow> unit + string" where
  "json_Marshal_pseudorandomGenerator g =
     Inr (json_Marshal_fields [(''blockHash'', blockHash g), (''header'', header g)])"

definition bytes_of_string :: "string \<Rightarrow> bytes" where
  "bytes_of_string s = map of_char s"

text \<open>
  The loop over \<open>i = 0, ..., 15\<close>: parse \<open>proofsHash[i:]\<close>, panic on a parse
  error, return the first value below \<open>totalRelays\<close>, and \<open>0\<close> after the last index.
\<close>

fun GeneratePseudoRandomProof_loop :: "int64 \<Rightarrow> string \<Rightarrow> nat list \<Rightarrow> int64 outcome" where
  "GeneratePseudoRandomProof_loop totalRelays proofsHash [] = Returned 0"
| "GeneratePseudoRandomProof_loop totalRelays proofsHash (i # is) =
     (case ParseInt (drop i proofsHash) of
        Inl err \<Rightarrow> Panicked (ParsePanic err)
      | Inr res \<Rightarrow>
          if res <s totalRelays then Returned res
          else GeneratePseudoRandomProof_loop totalRelays proofsHash is)"

definition GeneratePseudoRandomProof ::
  "Keeper \<Rightarrow> Context \<Rightarrow> int64 \<Rightarrow> Header \<Rightarrow> int64 outcome" where
  "GeneratePseudoRandomProof k ctx totalRelays hdr =
     (let proofContext =
            WithBlockHeight ctx
              (SessionBlockHeight hdr + ProofWaitingPeriod k ctx * SessionFrequency k ctx)
      in case json_Marshal_pseudorandomGenerator
                \<lparr>blockHash = hex_EncodeToString (LastBlockIdHash k proofContext),
                 header = HashString k hdr\<rparr> of
           Inl err \<Rightarrow> Panicked MarshalPanic
         | Inr r \<Rightarrow>
             (let digest = hex_EncodeToString (SHA3FromBytes k (bytes_of_string r)) in
              if length digest < 16 then Panicked SliceBoundsPanic
              else GeneratePseudoRandomProof_loop totalRelays (take 16 digest) [0..<16]))"

text \<open>
  The reference algorithm, in the specification's words: hash the serialization of the
  pair of the block hash and the header hash, take the first 16 hexadecimal characters
  \<open>s\<close> of the digest, and return the first \<open>r = s[i..]\<close> read in base 16 with
  \<open>total_relays > r\<close>, or \<open>0\<close>.  The hash and the serialization are parameters.
\<close>

fun parse_base16 :: "nat \<Rightarrow> string \<Rightarrow> nat" where
  "parse_base16 acc [] = acc"
| "parse_base16 acc (c # cs) =
     parse_base16 (acc * 16 + (case digit_value c of None \<Rightarrow> 0 | Some d \<Rightarrow> d)) cs"

fun first_below :: "int \<Rightarrow> string \<Rightarrow> nat list \<Rightarrow> int" where
  "first_below total_relays s [] = 0"
| "first_below total_relays s (i # is) =
     (let r = int (parse_base16 0 (drop i s)) in
      if total_relays > r then r else first_below total_relays s is)"

definition pseudorandom_challenge_reference ::
  "(bytes \<Rightarrow> bytes) \<Rightarrow> (string \<times> string \<Rightarrow> bytes) \<Rightarrow> string \<Rightarrow> string \<Rightarrow> int \<Rightarrow> int" where
  "pseudorandom_challenge_reference sha3 serialize block_hash_hex header_hash_hex total_relays =
     (let payload = serialize (block_hash_hex, header_hash_hex);
          s = take 16 (hex_EncodeToString (sha3 payload))
      in first_below total_relays s [0..<16])"

section \<open>Proof validation\<close>

text \<open>
  Modelled from the spec: \<open>Token.Validate\<close> belongs to the types package, which is not
  part of these sources.  After step 5 of the specification's proof verification and
  its list of error kinds: a token whose signature, expiry or staking check fails is
  \<open>InvalidToken\<close>.  The check itself is the keeper's parameter \<open>token_valid\<close>.
\<close>

definition Token_Validate :: "Keeper \<Rightarrow> AAT \<Rightarrow> sdk_Error option" where
  "Token_Validate k t = (if token_valid k t then None else Some InvalidTokenError)"

text \<open>
  Modelled from the spec: \<open>SignatureVerification\<close> belongs to the types package, which
  is not part of these sources.  After step 6 of the specification's proof verification
  and its list of error kinds: a client signature that does not verify over the leaf's
  hash string under the token's client key is \<open>InvalidSignature\<close>.  The check itself
  is the keeper's parameter \<open>signature_valid\<close>.
\<close>

definition SignatureVerification :: "Keeper \<Rightarrow> string \<Rightarrow> string \<Rightarrow> string \<Rightarrow> sdk_Error option" where
  "SignatureVerification k publicKey msg sig =
     (if signature_valid k publicKey msg sig then None else Some InvalidSignatureError)"

text \<open>
  \<open>ValidateProof\<close>: \<open>proof\<close> is the stored first message (total relays, root),
  \<open>claim\<close> the second one (leaf and branch).  The result is the returned error,
  \<open>None\<close> for \<open>nil\<close>.
\<close>

definition ValidateProof ::
  "Keeper \<Rightarrow> Context \<Rightarrow> MsgProof \<Rightarrow> MsgClaimProof \<Rightarrow> sdk_Error option outcome" where
  "ValidateProof k ctx proof claim =
     (case GeneratePseudoRandomProof k ctx (MsgProof_TotalRelays proof) (MsgProof_Header proof) of
        Panicked p \<Rightarrow> Panicked p
      | Returned reqProof \<Rightarrow>
          if reqProof \<noteq> Index (MsgClaimProof_LeafNode claim) then
            Returned (Some InvalidProofsError)
          else if \<not> VerifyProof k (MsgClaimProof_MerkleProof claim) (MsgProof_Root proof)
                      (Proof_Hash k (MsgClaimProof_LeafNode claim)) then
            Returned (Some InvalidMerkleVerifyError)
          else
            (case Token_Validate k (Token (MsgClaimProof_LeafNode claim)) of
               Some err \<Rightarrow> Returned (Some err)
             | None \<Rightarrow>
                 (case SignatureVerification k
                         (ClientPublicKey (Token (MsgClaimProof_LeafNode claim)))
                         (Proof_HashString k (MsgClaimProof_LeafNode claim))
                         (Signature (MsgClaimProof_LeafNode claim)) of
                    Some err \<Rightarrow> Returned (Some err)
                  | None \<Rightarrow> Returned None)))"

section \<open>The evidence held in memory\<close>

text \<open>
  \<open>pc.GetAllProofs()\<close>: the sessions' evidence, one entry per session header, in the
  order in which a \<open>range\<close> over the map visits them (any order: the store is any list
  whose headers are distinct).
\<close>

type_synonym AllProofs = "ProofOfRelay list"

text \<open>
  Modelled from the spec: \<open>DeleteProofs\<close> is a method of the evidence store in the
  types package, which is not part of these sources.  After the specification's
  \<open>delete(header)\<close>: it removes the whole accumulator of the session.
\<close>

definition DeleteProofs :: "AllProofs \<Rightarrow> Header \<Rightarrow> AllProofs" where
  "DeleteProofs store h = filter (\<lambda>p. por_Header p \<noteq> h) store"



text \<open>
  Modelled from the spec: the stores that the relay front-end can build.  The code that
  fills the store is in the types package, which is not part of these sources.  After
  the specification's data model and invariants: there is one entry per session header,
  an entry is created by the first relay of its session and only grows, and its
  \<open>total_relays\<close> is the length of its list of relay proofs (a count that fits the
  \<open>int64\<close> field).
\<close>

definition evidence_store_ok :: "AllProofs \<Rightarrow> bool" where
  "evidence_store_ok proofs =
     (distinct (map por_Header proofs) \<and>
      (\<forall>p \<in> set proofs.
         por_Proofs p \<noteq> [] \<and> length (por_Proofs p) < 2 ^ 63 \<and>
         por_TotalRelays p = of_nat (length (por_Proofs p))))"

section \<open>The claims and verified proofs in the state\<close>


definition GetUnverfiedProof :: "Context \<Rightarrow> Address \<Rightarrow> Header \<Rightarrow> MsgProof option" where
  "GetUnverfiedProof ctx address h = map_of (UnverifiedProofs ctx) (address, h)"

definition ProofIsReadyToClaim :: "Keeper \<Rightarrow> Context \<Rightarrow> int64 \<Rightarrow> bool" where
  "ProofIsReadyToClaim k ctx sessionBlockHeight =
     (let waitingPeriodInBlocks = ProofWaitingPeriod k ctx * SessionFrequency k ctx in
      waitingPeriodInBlocks + sessionBlockHeight \<le>s BlockHeight ctx)"

text \<open>
  \<open>k.cdc.MustUnmarshalBinaryBare(iterator.Value(), msg)\<close> as the two iterating
  functions call it: with \<open>msg\<close> itself, not with \<open>&msg\<close>.  Go copies the struct into
  the argument, so the callee cannot write to the caller's variable: the call either
  panics or returns with \<open>msg\<close> as it was.  The stored value \<open>bz\<close> does not reach it.
\<close>

definition MustUnmarshalBinaryBare_value :: "Keeper \<Rightarrow> MsgProof \<Rightarrow> MsgProof \<Rightarrow> MsgProof outcome" where
  "MustUnmarshalBinaryBare_value k bz msg =
     (if cdc_rejects_value k then Panicked UnmarshalPanic else Returned msg)"

fun GetMatureUnverifiedProofs_loop ::
  "Keeper \<Rightarrow> Context \<Rightarrow> ((Address \<times> Header) \<times> MsgProof) list \<Rightarrow> MsgProof \<Rightarrow> MsgProof list
     \<Rightarrow> MsgProof list outcome" where
  "GetMatureUnverifiedProofs_loop k ctx [] msg matureProofs = Returned matureProofs"
| "GetMatureUnverifiedProofs_loop k ctx (entry # rest) msg matureProofs =
     (case MustUnmarshalBinaryBare_value k (snd entry) msg of
        Panicked p \<Rightarrow> Panicked p
      | Returned msg' \<Rightarrow>
          if ProofIsReadyToClaim k ctx (SessionBlockHeight (MsgProof_Header msg'))
          then GetMatureUnverifiedProofs_loop k ctx rest msg' (matureProofs @ [msg'])
          else GetMatureUnverifiedProofs_loop k ctx rest msg' matureProofs)"

definition GetMatureUnverifiedProofs :: "Keeper \<Rightarrow> Context \<Rightarrow> Address \<Rightarrow> MsgProof list outcome" where
  "GetMatureUnverifiedProofs k ctx address =
     GetMatureUnverifiedProofs_loop k ctx
       (filter (\<lambda>entry. fst (fst entry) = address) (UnverifiedProofs ctx)) MsgProof_zero []"

fun DeleteExpiredUnverifiedProofs_loop ::
  "Keeper \<Rightarrow> ((Address \<times> Header) \<times> MsgProof) list \<Rightarrow> MsgProof \<Rightarrow> Context \<Rightarrow> Context outcome" where
  "DeleteExpiredUnverifiedProofs_loop k [] msg ctx = Returned ctx"
| "DeleteExpiredUnverifiedProofs_loop k (entry # rest) msg ctx =
     (case MustUnmarshalBinaryBare_value k (snd entry) msg of
        Panicked p \<Rightarrow> Panicked p
      | Returned msg' \<Rightarrow>
          (let sessionContext = WithBlockHeight ctx (SessionBlockHeight (MsgProof_Header msg')) in
           if SessionFrequency k sessionContext = 0 then Panicked DivideByZeroPanic
           else if UnverifiedProofExpiration k sessionContext \<le>s
                     go_div (BlockHeight ctx - SessionBlockHeight (MsgProof_Header msg'))
                       (SessionFrequency k sessionContext)
           then DeleteExpiredUnverifiedProofs_loop k rest msg'
                  (ctx\<lparr>UnverifiedProofs := filter (\<lambda>e. fst e \<noteq> fst entry) (UnverifiedProofs ctx)\<rparr>)
           else DeleteExpiredUnverifiedProofs_loop k rest msg' ctx))"

definition DeleteExpiredUnverifiedProofs :: "Keeper \<Rightarrow> Context \<Rightarrow> Context outcome" where
  "DeleteExpiredUnverifiedProofs k ctx =
     DeleteExpiredUnverifiedProofs_loop k (UnverifiedProofs ctx) MsgProof_zero ctx"

text \<open>
  What the two claims about maturity and expiry read from a stored claim: its age in
  sessions at height \<open>h\<close>, and the claims of the state that are mature.
\<close>

definition claim_is_mature :: "Keeper \<Rightarrow> Context \<Rightarrow> MsgProof \<Rightarrow> bool" where
  "claim_is_mature k ctx m =
     (sint (SessionBlockHeight (MsgProof_Header m)) +
        sint (ProofWaitingPeriod k ctx) * sint (SessionFrequency k ctx) \<le> sint (BlockHeight ctx))"

definition mature_claims :: "Keeper \<Rightarrow> Context \<Rightarrow> Address \<Rightarrow> MsgProof list" where
  "mature_claims k ctx address =
     filter (claim_is_mature k ctx)
       (map snd (filter (\<lambda>entry. fst (fst entry) = address) (UnverifiedProofs ctx)))"

definition claim_age :: "Keeper \<Rightarrow> Context \<Rightarrow> MsgProof \<Rightarrow> int64" where
  "claim_age k ctx m =
     go_div (BlockHeight ctx - SessionBlockHeight (MsgProof_Header m))
       (SessionFrequency k (WithBlockHeight ctx (SessionBlockHeight (MsgProof_Header m))))"

definition claim_is_expired :: "Keeper \<Rightarrow> Context \<Rightarrow> MsgProof \<Rightarrow> bool" where
  "claim_is_expired k ctx m =
     (UnverifiedProofExpiration k (WithBlockHeight ctx (SessionBlockHeight (MsgProof_Header m)))
        \<le>s claim_age k ctx m)"

section \<open>The lifecycle driver\<close>

record Node =
  PrivValidator_Address :: Address
  GenesisDoc_ChainID :: string

record TxBuilder =
  tb_AccountNumber :: nat
  tb_Sequence :: nat
  tb_Gas :: nat
  tb_ChainID :: string
  tb_FeeDenom :: string

definition newTxBuilderAndCliCtx :: "Keeper \<Rightarrow> Context \<Rightarrow> Node \<Rightarrow> TxBuilder outcome" where
  "newTxBuilderAndCliCtx k ctx n =
     (case GetAccount k (PrivValidator_Address n) of
        None \<Rightarrow> Panicked AccountPanic
      | Some account \<Rightarrow>
          Returned \<lparr>tb_AccountNumber = AccountNumber account, tb_Sequence = Sequence account,
                    tb_Gas = 9000, tb_ChainID = GenesisDoc_ChainID n,
                    tb_FeeDenom = StakeDenom k ctx\<rparr>)"

text \<open>
  A pass of the driver hands transactions to a function of its caller (\<open>proofTx\<close>,
  \<open>claimTx\<close>), which returns an error or \<open>nil\<close>.  The result of a pass is the
  evidence it leaves in memory, the calls it made in order, and the panic that stopped
  it, if one did.  The state's key-value store is only read.
\<close>

datatype go_error = GoError string

datatype Tx =
    ProofTx TxBuilder Header int64 bytes
  | ClaimTx TxBuilder MerkleProof Proof

record PassResult =
  evidence :: AllProofs
  broadcast :: "Tx list"
  panicked :: "panic option"

fun SendUnverifiedProofs_loop ::
  "Keeper \<Rightarrow> Context \<Rightarrow> Node \<Rightarrow> (TxBuilder \<Rightarrow> Header \<Rightarrow> int64 \<Rightarrow> bytes \<Rightarrow> go_error option)
     \<Rightarrow> ProofOfRelay list \<Rightarrow> AllProofs \<Rightarrow> Tx list \<Rightarrow> PassResult" where
  "SendUnverifiedProofs_loop k ctx n proofTx [] proofs txs =
     \<lparr>evidence = proofs, broadcast = txs, panicked = None\<rparr>"
| "SendUnverifiedProofs_loop k ctx n proofTx (proof # rest) proofs txs =
     (if \<not> IsPocketSupportedBlockchain k
             (WithBlockHeight ctx (SessionBlockHeight (por_Header proof)))
             (Chain (por_Header proof))
         \<and> 0 <s por_TotalRelays proof
      then SendUnverifiedProofs_loop k ctx n proofTx rest (DeleteProofs proofs (por_Header proof)) txs
      else if GetUnverfiedProof ctx (PrivValidator_Address n) (por_Header proof) \<noteq> None
      then SendUnverifiedProofs_loop k ctx n proofTx rest proofs txs
      else
        (case newTxBuilderAndCliCtx k ctx n of
           Panicked p \<Rightarrow> \<lparr>evidence = proofs, broadcast = txs, panicked = Some p\<rparr>
         | Returned txBuilder \<Rightarrow>
             (case GetMerkleRoot k (por_Tree proof) of
                None \<Rightarrow> \<lparr>evidence = proofs, broadcast = txs, panicked = Some MerkleRootPanic\<rparr>
              | Some root \<Rightarrow>
                  (let txs' = txs @ [ProofTx txBuilder (por_Header proof) (por_TotalRelays proof) root] in
                   case proofTx txBuilder (por_Header proof) (por_TotalRelays proof) root of
                     Some err \<Rightarrow> \<lparr>evidence = proofs, broadcast = txs', panicked = Some TxPanic\<rparr>
                   | None \<Rightarrow> SendUnverifiedProofs_loop k ctx n proofTx rest proofs txs'))))"

definition SendUnverifiedProofs ::
  "Keeper \<Rightarrow> Context \<Rightarrow> Node \<Rightarrow> (TxBuilder \<Rightarrow> Header \<Rightarrow> int64 \<Rightarrow> bytes \<Rightarrow> go_error option)
     \<Rightarrow> AllProofs \<Rightarrow> PassResult" where
  "SendUnverifiedProofs k ctx n proofTx proofs =
     SendUnverifiedProofs_loop k ctx n proofTx proofs proofs []"



section \<open>One turn of a pass\<close>

text \<open>
  The cases of one turn of the loop of \<open>SendUnverifiedProofs\<close>: the session is
  dropped (first branch), it is sent (neither dropped nor claimed in the state yet), and
  the transaction the turn hands over when nothing in it panics.
\<close>

definition session_dropped :: "Keeper \<Rightarrow> Context \<Rightarrow> ProofOfRelay \<Rightarrow> bool" where
  "session_dropped k ctx p =
     (\<not> IsPocketSupportedBlockchain k
          (WithBlockHeight ctx (SessionBlockHeight (por_Header p))) (Chain (por_Header p))
      \<and> 0 <s por_TotalRelays p)"

definition session_sent :: "Keeper \<Rightarrow> Context \<Rightarrow> Node \<Rightarrow> ProofOfRelay \<Rightarrow> bool" where
  "session_sent k ctx n p =
     (\<not> session_dropped k ctx p \<and>
      GetUnverfiedProof ctx (PrivValidator_Address n) (por_Header p) = None)"

definition proof_tx_of ::
  "Keeper \<Rightarrow> Context \<Rightarrow> Node \<Rightarrow> (TxBuilder \<Rightarrow> Header \<Rightarrow> int64 \<Rightarrow> bytes \<Rightarrow> go_error option)
     \<Rightarrow> ProofOfRelay \<Rightarrow> Tx option" where
  "proof_tx_of k ctx n proofTx p =
     (case newTxBuilderAndCliCtx k ctx n of
        Panicked e \<Rightarrow> None
      | Returned txBuilder \<Rightarrow>
          (case GetMerkleRoot k (por_Tree p) of
             None \<Rightarrow> None
           | Some root \<Rightarrow>
               (case proofTx txBuilder (por_Header p) (por_TotalRelays p) root of
                  Some err \<Rightarrow> None
                | None \<Rightarrow> Some (ProofTx txBuilder (por_Header p) (por_TotalRelays p) root))))"



section \<open>Example data\<close>

text \<open>
  The SHA3-256 digest of the two bytes \<open>{}\<close> (\<open>7b 7d\<close>), as any implementation of
  the standard computes it.
\<close>

definition sha3_256_of_empty_object :: bytes where
  "sha3_256_of_empty_object =
     [0x84, 0x0e, 0xb7, 0xaa, 0x2a, 0x99, 0x35, 0xde, 0x63, 0x36, 0x6b, 0xac, 0xbe, 0x9d, 0x97, 0xe9,
      0x78, 0xa8, 0x59, 0xe9, 0x3d, 0xc7, 0x92, 0xa0, 0x33, 0x4d, 0xe6, 0x0e, 0xd5, 0x2f, 0x8e, 0x99]"

text \<open>
  A keeper with the default parameters (sessions of 25 blocks, a waiting period of 3
  sessions, expiry after 240 sessions) that supports the chain \<open>0021\<close>.  Its hash is
  SHA3-256 at the one payload the code hashes, its Merkle library knows the trees of a
  single leaf (the branch is empty and the root is the leaf's hash), and its codec
  panics on a value that is no pointer.
\<close>

definition example_keeper :: Keeper where
  "example_keeper =
     \<lparr>ProofWaitingPeriod = (\<lambda>ctx. 3),
      SessionFrequency = (\<lambda>ctx. 25),
      UnverifiedProofExpiration = (\<lambda>ctx. 240),
      IsPocketSupportedBlockchain = (\<lambda>ctx chain. chain = ''0021''),
      LastBlockIdHash = (\<lambda>ctx. [of_nat (unat (BlockHeight ctx) mod 256)]),
      SHA3FromBytes = (\<lambda>b. if b = bytes_of_string ''{}'' then sha3_256_of_empty_object else []),
      HashString = (\<lambda>h. ApplicationPubKey h @ Chain h),
      Proof_Hash = (\<lambda>p. bytes_of_string (Signature p)),
      Proof_HashString = (\<lambda>p. Signature p),
      VerifyProof = (\<lambda>branch root leaf. branch = [] \<and> root = leaf),
      token_valid = (\<lambda>t. ApplicationSignature t \<noteq> []),
      signature_valid = (\<lambda>publicKey msg sig. publicKey \<noteq> [] \<and> sig \<noteq> []),
      GetMerkleRoot = (\<lambda>t. case t of [] \<Rightarrow> None | leaf # _ \<Rightarrow> Some leaf),
      GenerateMerkleTree = (\<lambda>leaves. map (\<lambda>p. bytes_of_string (Signature p)) leaves),
      GetMerkleProof = (\<lambda>t i. if 0 \<le>s i \<and> nat (sint i) < length t then Some [] else None),
      StakeDenom = (\<lambda>ctx. ''upokt''),
      GetAccount = (\<lambda>a. Some \<lparr>AccountNumber = 7, Sequence = 0\<rparr>),
      cdc_rejects_value = True\<rparr>"

text \<open>The same keeper with a hash whose digest starts with the digits \<open>0000000000000002\<close>.\<close>

definition low_digest :: bytes where
  "low_digest =
     [0x00, 0x00, 0x00, 0x00, 0x00, 0x00, 0x00, 0x02, 0x00, 0x00, 0x00, 0x00, 0x00, 0x00, 0x00, 0x00,
      0x00, 0x00, 0x00, 0x00, 0x00, 0x00, 0x00, 0x00, 0x00, 0x00, 0x00, 0x00, 0x00, 0x00, 0x00, 0x00]"

definition low_digest_keeper :: Keeper where
  "low_digest_keeper = example_keeper\<lparr>SHA3FromBytes := (\<lambda>b. low_digest)\<rparr>"

definition example_header :: Header where
  "example_header = \<lparr>ApplicationPubKey = ''a1'', Chain = ''0021'', SessionBlockHeight = 100\<rparr>"

definition example_context :: "int64 \<Rightarrow> Context" where
  "example_context h = \<lparr>BlockHeight = h, UnverifiedProofs = [], VerifiedProofs = []\<rparr>"

definition example_leaf :: Proof where
  "example_leaf =
     \<lparr>Index = 2,
      Token = \<lparr>ApplicationPublicKey = ''a1'', ClientPublicKey = ''c1'', ApplicationSignature = ''5a''\<rparr>,
      Signature = ''5c''\<rparr>"

text \<open>A node, its claims in the state, and the evidence it holds.\<close>

definition example_address :: Address where
  "example_address = [0x0a, 0x0b]"

definition example_node :: Node where
  "example_node = \<lparr>PrivValidator_Address = example_address, GenesisDoc_ChainID = ''pocket-test''\<rparr>"

definition example_txBuilder :: TxBuilder where
  "example_txBuilder =
     \<lparr>tb_AccountNumber = 7, tb_Sequence = 0, tb_Gas = 9000, tb_ChainID = ''pocket-test'',
      tb_FeeDenom = ''upokt''\<rparr>"

definition example_claim :: "int64 \<Rightarrow> MsgProof" where
  "example_claim sessionBlockHeight =
     \<lparr>MsgProof_Header = example_header\<lparr>SessionBlockHeight := sessionBlockHeight\<rparr>,
      MsgProof_TotalRelays = 4, MsgProof_Root = bytes_of_string ''5c'',
      MsgProof_FromAddress = example_address\<rparr>"

definition state_with_claim :: "int64 \<Rightarrow> int64 \<Rightarrow> Context" where
  "state_with_claim h sessionBlockHeight =
     \<lparr>BlockHeight = h,
      UnverifiedProofs =
        [((example_address, example_header\<lparr>SessionBlockHeight := sessionBlockHeight\<rparr>),
          example_claim sessionBlockHeight)],
      VerifiedProofs = []\<rparr>"

definition accountless_keeper :: Keeper where
  "accountless_keeper = example_keeper\<lparr>GetAccount := (\<lambda>a. None)\<rparr>"

definition lenient_keeper :: Keeper where
  "lenient_keeper = example_keeper\<lparr>cdc_rejects_value := False\<rparr>"

definition example_session :: "string \<Rightarrow> Proof list \<Rightarrow> ProofOfRelay" where
  "example_session chain leaves =
     \<lparr>por_Header = example_header\<lparr>Chain := chain\<rparr>,
      por_TotalRelays = of_nat (length leaves),
      por_Proofs = leaves,
      por_Tree = map (\<lambda>p. bytes_of_string (Signature p)) leaves\<rparr>"

definition example_store :: AllProofs where
  "example_store = [example_session ''00aa'' [example_leaf], example_session ''0021'' [example_leaf]]"

definition accepting_tx :: "TxBuilder \<Rightarrow> Header \<Rightarrow> int64 \<Rightarrow> bytes \<Rightarrow> go_error option" where
  "accepting_tx txBuilder h totalRelays root = None"


section \<open>Facts about the hexadecimal codec\<close>

lemma fromHexChar_None_iff: "(fromHexChar c = None) = (\<not> isHexDigit c)"
  by (auto simp: fromHexChar_def isHexDigit_def Let_def)

lemma hex_DecodeString_Inr_iff:
  "(\<exists>h. hex_DecodeString s = Inr h) = valid_hex s"
proof (induction s rule: hex_DecodeString.induct)
  case 1
  show ?case by (simp add: valid_hex_def)
next
  case (2 c)
  show ?case by (simp add: valid_hex_def split: option.splits)
next
  case (3 a b rest)
  show ?case
  proof (cases "fromHexChar a")
    case None
    then have "\<not> isHexDigit a" by (simp add: fromHexChar_None_iff)
    with None show ?thesis by (simp add: valid_hex_def)
  next
    case (Some x)
    note a = Some
    show ?thesis
    proof (cases "fromHexChar b")
      case None
      then have "\<not> isHexDigit b" by (simp add: fromHexChar_None_iff)
      with a None show ?thesis by (simp add: valid_hex_def)
    next
      case (Some y)
      have da: "isHexDigit a" using a fromHexChar_None_iff [of a] by auto
      have db: "isHexDigit b" using Some fromHexChar_None_iff [of b] by auto
      have "(\<exists>h. hex_DecodeString (a # b # rest) = Inr h) = (\<exists>h. hex_DecodeString rest = Inr h)"
        using a Some by (auto split: sum.splits)
      also have "\<dots> = valid_hex rest"
        using "3.IH" [OF a Some] .
      also have "\<dots> = valid_hex (a # b # rest)"
        using da db by (simp add: valid_hex_def)
      finally show ?thesis .
    qed
  qed
qed

lemma hex_DecodeString_length:
  "hex_DecodeString s = Inr h \<Longrightarrow> length s = 2 * length h"
proof (induction s arbitrary: h rule: hex_DecodeString.induct)
  case 1
  then show ?case by simp
next
  case (2 c)
  then show ?case by (simp split: option.splits)
next
  case (3 a b rest)
  then show ?case by (auto split: option.splits sum.splits)
qed

section \<open>Network-identifier validation\<close>

text \<open>
  C8.  Network-identifier validation succeeds exactly on the strings that are valid
  hexadecimal and decode to one or two bytes: it returns an error when the string is
  not valid hexadecimal, when it decodes to no byte, and when it decodes to more than
  two bytes, and no error otherwise.
\<close>

theorem ValidateNetworkIdentifier_accepts_iff:
  "((ValidateNetworkIdentifier chain = None) =
      (\<exists>h. hex_DecodeString chain = Inr h \<and> 1 \<le> length h \<and> length h \<le> 2)) \<and>
   ((ValidateNetworkIdentifier chain = None) =
      (valid_hex chain \<and> (length chain = 2 \<or> length chain = 4)))"
proof -
  have first: "(ValidateNetworkIdentifier chain = None) =
     (\<exists>h. hex_DecodeString chain = Inr h \<and> 1 \<le> length h \<and> length h \<le> 2)"
    by (cases "hex_DecodeString chain")
       (auto simp: ValidateNetworkIdentifier_def NetworkIdentifierLength_def Suc_le_eq)
  have "(ValidateNetworkIdentifier chain = None) =
     (valid_hex chain \<and> (length chain = 2 \<or> length chain = 4))"
  proof (cases "hex_DecodeString chain")
    case (Inl e)
    then have "\<not> valid_hex chain"
      using hex_DecodeString_Inr_iff [of chain] by auto
    with Inl show ?thesis by (simp add: ValidateNetworkIdentifier_def)
  next
    case (Inr h)
    then have v: "valid_hex chain"
      using hex_DecodeString_Inr_iff [of chain] by auto
    have l: "length chain = 2 * length h"
      using Inr by (rule hex_DecodeString_length)
    have "(1 \<le> length h \<and> length h \<le> 2) = (length chain = 2 \<or> length chain = 4)"
      using l by auto
    with first Inr v show ?thesis by simp
  qed
  with first show ?thesis by blast
qed

theorem ValidateNetworkIdentifier_accepts_iff_witness:
  "ValidateNetworkIdentifier ''0021'' = None \<and>
   valid_hex ''0021'' \<and>
   ValidateNetworkIdentifier ''aabbcc'' \<noteq> None \<and>
   ValidateNetworkIdentifier ''0g'' \<noteq> None \<and>
   ValidateNetworkIdentifier [] \<noteq> None"
  using ValidateNetworkIdentifier_accepts_iff [of "''0021''", THEN conjunct2]
    ValidateNetworkIdentifier_accepts_iff [of "''aabbcc''", THEN conjunct2]
    ValidateNetworkIdentifier_accepts_iff [of "''0g''", THEN conjunct2]
    ValidateNetworkIdentifier_accepts_iff [of "[]", THEN conjunct2]
  by (simp add: valid_hex_def isHexDigit_def)

section \<open>Facts about parsing and the digest\<close>

lemma upt_0_16: "[0..<16] = [0, 1, 2, 3, 4, 5, 6, 7, 8, 9, 10, 11, 12, 13, 14, 15 :: nat]"
  by (simp add: eval_nat_numeral upt_rec)

lemma unat_high_nibble: "unat (drop_bit 4 (v :: byte)) < 16"
proof -
  have "unat v < 256" using unsigned_less [of v, where ?'a = nat] by simp
  then show ?thesis unfolding unat_drop_bit_eq by (simp add: drop_bit_eq_div)
qed

lemma unat_low_nibble: "unat ((v :: byte) AND 15) < 16"
proof -
  have "unat (v AND 15) \<le> unat (15 :: byte)"
    by (rule word_and_le1 [THEN word_le_nat_alt [THEN iffD1]])
  then show ?thesis by simp
qed

lemma hex_EncodeToString_chars: "set (hex_EncodeToString bs) \<subseteq> set hextable"
proof (induction bs)
  case Nil
  show ?case by simp
next
  case (Cons v vs)
  have l: "length hextable = 16" by (simp add: hextable_def)
  have "hextable ! unat (drop_bit 4 v) \<in> set hextable"
    using unat_high_nibble [of v] l by (intro nth_mem) simp
  moreover have "hextable ! unat (v AND 15) \<in> set hextable"
    using unat_low_nibble [of v] l by (intro nth_mem) simp
  ultimately show ?case using Cons.IH by simp
qed

lemma hextable_no_sign: "c \<in> set hextable \<Longrightarrow> c \<noteq> CHR ''+'' \<and> c \<noteq> CHR ''-''"
  by (auto simp: hextable_def)

lemma ParseInt_unsigned:
  assumes "s \<noteq> []" "hd s \<noteq> CHR ''+''" "hd s \<noteq> CHR ''-''"
  shows "ParseInt s = (case ParseUint s of Inl e \<Rightarrow> Inl e
           | Inr un \<Rightarrow> if un \<ge> 2 ^ 63 then Inl ErrRange else Inr (of_nat un))"
  using assms by (simp add: ParseInt_def split: sum.splits)

lemma sint_of_nat_small:
  assumes "un < 2 ^ 63"
  shows "sint (of_nat un :: int64) = int un"
proof -
  have "int un < 2 ^ 63" using assms by (metis of_nat_less_iff of_nat_numeral of_nat_power)
  moreover have "- (2 ^ 63) \<le> int un" by (smt (verit) zero_less_power of_nat_0_le_iff)
  ultimately have "signed_take_bit 63 (int un) = int un"
    by (rule signed_take_bit_int_eq_self [rotated])
  then show ?thesis by (simp add: signed_of_nat)
qed

lemma ParseInt_nonneg:
  assumes "set s \<subseteq> set hextable" and "ParseInt s = Inr res"
  shows "0 \<le>s res"
proof -
  from assms(2) have ne: "s \<noteq> []" by (auto simp: ParseInt_def)
  then have "hd s \<in> set hextable" using assms(1) by (cases s) auto
  then have ns: "hd s \<noteq> CHR ''+''" "hd s \<noteq> CHR ''-''"
    using hextable_no_sign by blast+
  show ?thesis
  proof (cases "ParseUint s")
    case (Inl e)
    with assms(2) show ?thesis by (simp add: ParseInt_unsigned [OF ne ns])
  next
    case (Inr un)
    show ?thesis
    proof (cases "un \<ge> 2 ^ 63")
      case True
      with Inr assms(2) show ?thesis by (simp add: ParseInt_unsigned [OF ne ns])
    next
      case False
      then have lt: "un < 2 ^ 63" by simp
      from False Inr assms(2) have "res = of_nat un"
        by (simp add: ParseInt_unsigned [OF ne ns])
      then show ?thesis using sint_of_nat_small [OF lt] by (simp add: word_sle_eq)
    qed
  qed
qed

text \<open>
  On a string of at most 16 hexadecimal digits \<open>ParseUint\<close> never overflows and yields
  the string's value; \<open>ParseInt\<close> then fails exactly when the value is \<open>2 ^ 63\<close> or
  more, which takes all 16 digits.
\<close>

lemma digit_value_hextable:
  assumes "c \<in> set hextable"
  shows "\<exists>d. digit_value c = Some d \<and> d < 16"
  using assms by (auto simp: hextable_def digit_value_def)

lemma ParseUint_loop_hex:
  assumes "set s \<subseteq> set hextable" and "(n + 1) * 16 ^ length s \<le> 2 ^ 64"
  shows "ParseUint_loop n s = Inr (parse_base16 n s)"
  using assms
proof (induction s arbitrary: n)
  case Nil
  show ?case by simp
next
  case (Cons c cs)
  define P :: nat where "P = 16 ^ length cs"
  have P1: "1 \<le> P" by (simp add: P_def)
  from Cons.prems(1) obtain d where d: "digit_value c = Some d" "d < 16"
    using digit_value_hextable [of c] by auto
  have "(n + 1) * 16 ^ length (c # cs) = ((n + 1) * 16) * P"
    by (simp add: P_def algebra_simps)
  with Cons.prems(2) have b: "((n + 1) * 16) * P \<le> 2 ^ 64" by (simp only:)
  have "(n + 1) * 16 \<le> ((n + 1) * 16) * P"
    by (rule order_trans [OF _ mult_le_mono2 [OF P1]]) simp
  from this b have b16: "(n + 1) * 16 \<le> 2 ^ 64" by (rule order_trans)
  then have n60: "\<not> n \<ge> 2 ^ 60" by simp
  have n64: "\<not> n * 16 + d \<ge> 2 ^ 64" using b16 d(2) by simp
  have "n * 16 + d + 1 \<le> (n + 1) * 16" using d(2) by simp
  then have "(n * 16 + d + 1) * P \<le> ((n + 1) * 16) * P"
    by (rule mult_le_mono1)
  with b have "(n * 16 + d + 1) * P \<le> 2 ^ 64" by (rule order_trans [rotated])
  then have inv: "(n * 16 + d + 1) * 16 ^ length cs \<le> 2 ^ 64" by (simp only: P_def)
  have "set cs \<subseteq> set hextable" using Cons.prems(1) by simp
  from Cons.IH [OF this inv] d n60 n64 show ?case by simp
qed

lemma parse_base16_bound:
  assumes "set s \<subseteq> set hextable"
  shows "parse_base16 n s < (n + 1) * 16 ^ length s"
  using assms
proof (induction s arbitrary: n)
  case Nil
  show ?case by simp
next
  case (Cons c cs)
  define P :: nat where "P = 16 ^ length cs"
  from Cons.prems obtain d where d: "digit_value c = Some d" "d < 16"
    using digit_value_hextable [of c] by auto
  have "set cs \<subseteq> set hextable" using Cons.prems by simp
  from Cons.IH [OF this, of "n * 16 + d"]
  have "parse_base16 (n * 16 + d) cs < (n * 16 + d + 1) * P" by (simp only: P_def)
  also have "n * 16 + d + 1 \<le> (n + 1) * 16" using d(2) by simp
  then have "(n * 16 + d + 1) * P \<le> ((n + 1) * 16) * P"
    by (rule mult_le_mono1)
  finally have "parse_base16 (n * 16 + d) cs < ((n + 1) * 16) * P" .
  moreover have "(n + 1) * 16 ^ length (c # cs) = ((n + 1) * 16) * P"
    by (simp add: P_def algebra_simps)
  moreover have "parse_base16 n (c # cs) = parse_base16 (n * 16 + d) cs"
    using d by simp
  ultimately show ?case by (simp only:)
qed

lemma ParseInt_hex:
  assumes "set s \<subseteq> set hextable" and "s \<noteq> []" and "length s \<le> 16"
  shows "ParseInt s =
           (if parse_base16 0 s \<ge> 2 ^ 63 then Inl ErrRange else Inr (of_nat (parse_base16 0 s)))"
proof -
  have "hd s \<in> set hextable" using assms(1,2) by (cases s) auto
  then have ns: "hd s \<noteq> CHR ''+''" "hd s \<noteq> CHR ''-''"
    using hextable_no_sign by blast+
  have "(16::nat) ^ length s \<le> 16 ^ 16"
    using assms(3) by (intro power_increasing) simp_all
  then have "(0 + 1) * (16::nat) ^ length s \<le> 2 ^ 64" by simp
  from ParseUint_loop_hex [OF assms(1) this]
  have "ParseUint s = Inr (parse_base16 0 s)" using assms(2) by (simp add: ParseUint_def)
  then show ?thesis by (simp add: ParseInt_unsigned [OF assms(2) ns])
qed

lemma ParseInt_hex_short:
  assumes "set s \<subseteq> set hextable" and "s \<noteq> []" and "length s \<le> 15"
  shows "ParseInt s = Inr (of_nat (parse_base16 0 s)) \<and> parse_base16 0 s < 2 ^ 63"
proof -
  have "parse_base16 0 s < (0 + 1) * 16 ^ length s"
    using assms(1) by (rule parse_base16_bound)
  also have "(0 + 1) * (16::nat) ^ length s = 16 ^ length s" by simp
  also have "(16::nat) ^ length s \<le> 16 ^ 15"
    using assms(3) by (intro power_increasing) simp_all
  finally have lt: "parse_base16 0 s < 2 ^ 63" by simp
  with ParseInt_hex [OF assms(1,2)] assms(3) show ?thesis by simp
qed

section \<open>The pseudorandom index: what the code computes\<close>

text \<open>
  Both fields of \<open>pseudorandomGenerator\<close> are unexported, so the payload that is hashed
  is \<open>{}\<close> whatever the block hash and the header are.
\<close>

lemma json_Marshal_pseudorandomGenerator_empty:
  "json_Marshal_pseudorandomGenerator g = Inr ''{}''"
  by (simp add: json_Marshal_pseudorandomGenerator_def json_Marshal_fields_def exported_def)

lemma GeneratePseudoRandomProof_unfold:
  "GeneratePseudoRandomProof k ctx totalRelays hdr =
     (let digest = hex_EncodeToString (SHA3FromBytes k (bytes_of_string ''{}'')) in
      if length digest < 16 then Panicked SliceBoundsPanic
      else GeneratePseudoRandomProof_loop totalRelays (take 16 digest) [0..<16])"
  by (simp add: GeneratePseudoRandomProof_def json_Marshal_pseudorandomGenerator_empty Let_def)

lemma GeneratePseudoRandomProof_ignores_header_and_block:
  "GeneratePseudoRandomProof k ctx totalRelays hdr = GeneratePseudoRandomProof k ctx' totalRelays hdr'"
  by (simp add: GeneratePseudoRandomProof_unfold)

text \<open>
  Where the function returns, the index is not negative, it is below a positive
  \<open>totalRelays\<close>, and it is \<open>0\<close> when \<open>totalRelays\<close> is not positive.
\<close>

lemma GeneratePseudoRandomProof_loop_range:
  assumes "set s \<subseteq> set hextable"
    and "GeneratePseudoRandomProof_loop totalRelays s idxs = Returned r"
  shows "0 \<le>s r \<and> (r <s totalRelays \<or> r = 0)"
  using assms(2)
proof (induction idxs)
  case Nil
  then show ?case by simp
next
  case (Cons i idxs)
  show ?case
  proof (cases "ParseInt (drop i s)")
    case (Inl e)
    with Cons.prems show ?thesis by simp
  next
    case (Inr res)
    have "set (drop i s) \<subseteq> set hextable"
      using assms(1) set_drop_subset [of i s] by blast
    then have nn: "0 \<le>s res" using Inr by (rule ParseInt_nonneg)
    show ?thesis
    proof (cases "res <s totalRelays")
      case True
      with Inr Cons.prems nn show ?thesis by simp
    next
      case False
      with Inr Cons.prems Cons.IH show ?thesis by simp
    qed
  qed
qed

lemma GeneratePseudoRandomProof_range:
  assumes "GeneratePseudoRandomProof k ctx totalRelays hdr = Returned r"
  shows "0 \<le>s r \<and> (0 <s totalRelays \<longrightarrow> r <s totalRelays) \<and> (totalRelays \<le>s 0 \<longrightarrow> r = 0)"
proof -
  let ?d = "hex_EncodeToString (SHA3FromBytes k (bytes_of_string ''{}''))"
  have sub: "set (take 16 ?d) \<subseteq> set hextable"
    using hex_EncodeToString_chars [of "SHA3FromBytes k (bytes_of_string ''{}'')"]
      set_take_subset [of 16 ?d] by blast
  from assms have "GeneratePseudoRandomProof_loop totalRelays (take 16 ?d) [0..<16] = Returned r"
    by (simp add: GeneratePseudoRandomProof_unfold Let_def split: if_splits)
  from GeneratePseudoRandomProof_loop_range [OF sub this]
  have r: "0 \<le>s r" "r <s totalRelays \<or> r = 0" by simp_all
  have "totalRelays \<le>s 0 \<Longrightarrow> \<not> r <s totalRelays"
    using r(1) by (simp add: word_sle_eq word_sless_alt)
  moreover have "0 <s totalRelays \<Longrightarrow> r = 0 \<Longrightarrow> r <s totalRelays"
    by simp
  ultimately show ?thesis using r by blast
qed

text \<open>
  What the function computes, for a digest of 8 bytes or more: a panic when the first
  16 digits of the digest of \<open>{}\<close> are a value of \<open>2 ^ 63\<close> or more, and otherwise
  the reference loop on these digits.
\<close>

lemma GeneratePseudoRandomProof_loop_reference:
  assumes "set s \<subseteq> set hextable" and "length s = 16"
    and "\<forall>i \<in> set idxs. i < 16"
    and "parse_base16 0 s < 2 ^ 63"
  shows "GeneratePseudoRandomProof_loop totalRelays s idxs =
           Returned (of_int (first_below (sint totalRelays) s idxs))"
  using assms(3)
proof (induction idxs)
  case Nil
  show ?case by simp
next
  case (Cons i idxs)
  let ?t = "drop i s"
  let ?v = "parse_base16 0 ?t"
  have i: "i < 16" using Cons.prems by simp
  have hex: "set ?t \<subseteq> set hextable"
    using assms(1) set_drop_subset [of i s] by blast
  have ne: "?t \<noteq> []" using i assms(2) by simp
  have len: "length ?t \<le> 16" using assms(2) by simp
  have small: "?v < 2 ^ 63"
  proof (cases "i = 0")
    case True
    with assms(4) show ?thesis by simp
  next
    case False
    then have "length ?t \<le> 15" using assms(2) by simp
    from ParseInt_hex_short [OF hex ne this] show ?thesis by simp
  qed
  have p: "ParseInt ?t = Inr (of_nat ?v)"
    using ParseInt_hex [OF hex ne len] small by simp
  have cmp: "((of_nat ?v :: int64) <s totalRelays) = (int ?v < sint totalRelays)"
    using sint_of_nat_small [OF small] by (simp add: word_sless_alt)
  have IH: "GeneratePseudoRandomProof_loop totalRelays s idxs =
           Returned (of_int (first_below (sint totalRelays) s idxs))"
    using Cons.IH Cons.prems by simp
  show ?case
    using p cmp IH by (simp add: Let_def)
qed

lemma GeneratePseudoRandomProof_characterised:
  assumes "16 \<le> length (hex_EncodeToString (SHA3FromBytes k (bytes_of_string ''{}'')))"
  shows "GeneratePseudoRandomProof k ctx totalRelays hdr =
           (if 2 ^ 63 \<le> parse_base16 0 (take 16 (hex_EncodeToString (SHA3FromBytes k (bytes_of_string ''{}''))))
            then Panicked (ParsePanic ErrRange)
            else Returned (of_int (first_below (sint totalRelays)
                    (take 16 (hex_EncodeToString (SHA3FromBytes k (bytes_of_string ''{}'')))) [0..<16])))"
proof -
  let ?d = "hex_EncodeToString (SHA3FromBytes k (bytes_of_string ''{}''))"
  let ?s = "take 16 ?d"
  have hex: "set ?s \<subseteq> set hextable"
    using hex_EncodeToString_chars [of "SHA3FromBytes k (bytes_of_string ''{}'')"]
      set_take_subset [of 16 ?d] by blast
  have len: "length ?s = 16" using assms by simp
  have g: "GeneratePseudoRandomProof k ctx totalRelays hdr =
           GeneratePseudoRandomProof_loop totalRelays ?s [0..<16]"
    using assms by (simp add: GeneratePseudoRandomProof_unfold Let_def)
  show ?thesis
  proof (cases "2 ^ 63 \<le> parse_base16 0 ?s")
    case True
    have ne: "?s \<noteq> []" using len by auto
    have "ParseInt (drop 0 ?s) = Inl ErrRange"
      using ParseInt_hex [OF hex ne] len True by simp
    then have "GeneratePseudoRandomProof_loop totalRelays ?s (0 # [1..<16]) =
               Panicked (ParsePanic ErrRange)"
      by simp
    moreover have "[0..<16] = 0 # [1..<16]" by (simp add: upt_rec)
    ultimately show ?thesis using g True by simp
  next
    case False
    then have small: "parse_base16 0 ?s < 2 ^ 63" by simp
    have idx: "\<forall>i \<in> set [0..<16]. i < 16" by simp
    from GeneratePseudoRandomProof_loop_reference [OF hex len idx small] g False
    show ?thesis by simp
  qed
qed

text \<open>The two example keepers: the digests, and the parse of their first 16 digits.\<close>

lemma example_digest:
  "hex_EncodeToString (SHA3FromBytes example_keeper (bytes_of_string ''{}'')) =
   ''840eb7aa2a9935de63366bacbe9d97e978a859e93dc792a0334de60ed52f8e99''"
  by (simp add: example_keeper_def sha3_256_of_empty_object_def hextable_def)

lemma ParseInt_example: "ParseInt ''840eb7aa2a9935de'' = Inl ErrRange"
  by (simp add: ParseInt_def ParseUint_def digit_value_def)



lemma low_digest_hex:
  "hex_EncodeToString (SHA3FromBytes low_digest_keeper b) =
   ''0000000000000002000000000000000000000000000000000000000000000000''"
  by (simp add: low_digest_keeper_def example_keeper_def low_digest_def hextable_def)

lemma ParseInt_low: "ParseInt ''0000000000000002'' = Inr 2"
  by (simp add: ParseInt_def ParseUint_def digit_value_def)

lemma GeneratePseudoRandomProof_low_digest:
  "GeneratePseudoRandomProof low_digest_keeper ctx 4 hdr = Returned 2"
  by (simp add: GeneratePseudoRandomProof_unfold low_digest_hex upt_0_16 ParseInt_low)

text \<open>
  C7.  The pseudorandom index is a function of its inputs: two calls with the same
  header, the same total relay count and the same block hash at the proof height, in
  whatever contexts, give the same result.
\<close>

theorem GeneratePseudoRandomProof_deterministic:
  assumes "LastBlockIdHash k (WithBlockHeight ctx1
              (SessionBlockHeight hdr + ProofWaitingPeriod k ctx1 * SessionFrequency k ctx1)) =
           LastBlockIdHash k (WithBlockHeight ctx2
              (SessionBlockHeight hdr + ProofWaitingPeriod k ctx2 * SessionFrequency k ctx2))"
  shows "GeneratePseudoRandomProof k ctx1 totalRelays hdr =
         GeneratePseudoRandomProof k ctx2 totalRelays hdr"
  by (simp add: GeneratePseudoRandomProof_unfold)

theorem GeneratePseudoRandomProof_deterministic_witness:
  "LastBlockIdHash low_digest_keeper (WithBlockHeight (example_context 175)
      (SessionBlockHeight example_header + ProofWaitingPeriod low_digest_keeper (example_context 175)
         * SessionFrequency low_digest_keeper (example_context 175))) =
   LastBlockIdHash low_digest_keeper (WithBlockHeight (example_context 180)
      (SessionBlockHeight example_header + ProofWaitingPeriod low_digest_keeper (example_context 180)
         * SessionFrequency low_digest_keeper (example_context 180))) \<and>
   GeneratePseudoRandomProof low_digest_keeper (example_context 175) 4 example_header = Returned 2 \<and>
   GeneratePseudoRandomProof low_digest_keeper (example_context 180) 4 example_header = Returned 2"
  using GeneratePseudoRandomProof_deterministic
    [of low_digest_keeper "example_context 175" example_header "example_context 180" 4]
    GeneratePseudoRandomProof_low_digest [of "example_context 175" example_header]
  by (simp add: low_digest_keeper_def example_keeper_def WithBlockHeight_def example_context_def)

text \<open>
  C10.  The claim is that the parses never fail, so that the function is total.  With
  SHA3-256 the payload \<open>{}\<close> has the digest \<open>840eb7aa2a9935de...\<close>; its first 16
  digits are a value of \<open>2 ^ 63\<close> or more, \<open>ParseInt\<close> reports a range error at
  \<open>i = 0\<close>, and the function panics for every context, count and header.
\<close>

theorem GeneratePseudoRandomProof_panics:
  "GeneratePseudoRandomProof example_keeper ctx totalRelays hdr = Panicked (ParsePanic ErrRange)"
  by (simp add: GeneratePseudoRandomProof_unfold example_digest upt_0_16 ParseInt_example)

text \<open>
  C9.  The claim is an index in \<open>[0, totalRelays)\<close> for a positive count and \<open>0\<close>
  otherwise.  With SHA3-256 no index is returned at all: not \<open>0\<close> for the count
  \<open>0\<close>, and none for the count \<open>1000\<close>.
\<close>

theorem GeneratePseudoRandomProof_returns_no_index:
  "GeneratePseudoRandomProof example_keeper ctx 0 hdr \<noteq> Returned 0 \<and>
   (\<forall>r. GeneratePseudoRandomProof example_keeper ctx 1000 hdr \<noteq> Returned r)"
  by (simp add: GeneratePseudoRandomProof_unfold example_digest upt_0_16 ParseInt_example)

text \<open>
  C1.  The claim is that the code computes the reference algorithm.  With SHA3-256 the
  code panics, where the reference algorithm, even when it is handed the digest the code
  hashes to, skips the values that are too large and returns \<open>222\<close> (the digits
  \<open>de\<close>) for the count \<open>1000\<close>.
\<close>

theorem GeneratePseudoRandomProof_differs_from_reference:
  "GeneratePseudoRandomProof example_keeper ctx 1000 hdr = Panicked (ParsePanic ErrRange) \<and>
   pseudorandom_challenge_reference (\<lambda>payload. sha3_256_of_empty_object) serialize
     block_hash_hex header_hash_hex 1000 = 222"
  by (simp add: GeneratePseudoRandomProof_unfold example_digest upt_0_16 ParseInt_example
      pseudorandom_challenge_reference_def sha3_256_of_empty_object_def hextable_def
      digit_value_def Let_def)

section \<open>Proof validation: what the code returns\<close>

text \<open>
  The first two steps of \<open>ValidateProof\<close>, on a run in which the pseudorandom index
  \<open>r\<close> is returned: a leaf with another index is \<open>InvalidProofsError\<close>, a branch
  that does not verify the leaf's hash against the committed root is
  \<open>InvalidMerkleVerifyError\<close>, and an accepted proof has passed both.
\<close>

lemma ValidateProof_first_steps:
  assumes "GeneratePseudoRandomProof k ctx (MsgProof_TotalRelays commit) (MsgProof_Header commit) =
             Returned r"
  shows "(ValidateProof k ctx commit reveal = Returned (Some InvalidProofsError) \<longleftrightarrow>
            r \<noteq> Index (MsgClaimProof_LeafNode reveal)) \<and>
         (ValidateProof k ctx commit reveal = Returned (Some InvalidMerkleVerifyError) \<longleftrightarrow>
            r = Index (MsgClaimProof_LeafNode reveal) \<and>
            \<not> VerifyProof k (MsgClaimProof_MerkleProof reveal) (MsgProof_Root commit)
                  (Proof_Hash k (MsgClaimProof_LeafNode reveal))) \<and>
         (ValidateProof k ctx commit reveal = Returned None \<longrightarrow>
            r = Index (MsgClaimProof_LeafNode reveal) \<and>
            VerifyProof k (MsgClaimProof_MerkleProof reveal) (MsgProof_Root commit)
              (Proof_Hash k (MsgClaimProof_LeafNode reveal)))"
  using assms
  by (simp add: ValidateProof_def Token_Validate_def SignatureVerification_def)

text \<open>
  C2.  The claim is that an accepted proof has a verified Merkle branch and the index
  of the pseudorandom challenge, and that each of the four failing steps returns an
  error kind of its own.  \<open>ValidateProof\<close> computes the index first, with
  \<open>GeneratePseudoRandomProof\<close>; with SHA3-256 that call panics on every input, so
  \<open>ValidateProof\<close> returns neither \<open>nil\<close> nor an error of any kind, whatever the
  stored claim and the revealed leaf and branch are.
\<close>

theorem ValidateProof_panics:
  "ValidateProof example_keeper ctx commit reveal = Panicked (ParsePanic ErrRange)"
  by (simp add: ValidateProof_def GeneratePseudoRandomProof_unfold example_digest upt_0_16
      ParseInt_example)

section \<open>Maturity and expiry of claims\<close>

lemma example_keeper_params:
  "ProofWaitingPeriod example_keeper ctx = 3"
  "SessionFrequency example_keeper ctx = 25"
  "UnverifiedProofExpiration example_keeper ctx = 240"
  "cdc_rejects_value example_keeper"
  "ProofWaitingPeriod lenient_keeper ctx = 3"
  "SessionFrequency lenient_keeper ctx = 25"
  "UnverifiedProofExpiration lenient_keeper ctx = 240"
  "\<not> cdc_rejects_value lenient_keeper"
  by (simp_all add: example_keeper_def lenient_keeper_def)

text \<open>
  \<open>ProofIsReadyToClaim\<close> is the bound \<open>h \<ge> sessionBlockHeight + waiting period\<close>
  in the integers as long as the 64-bit product and sum do not overflow.
\<close>

lemma ProofIsReadyToClaim_iff:
  assumes "- (2 ^ 63) \<le> sint (ProofWaitingPeriod k ctx) * sint (SessionFrequency k ctx)"
    and "sint (ProofWaitingPeriod k ctx) * sint (SessionFrequency k ctx) < 2 ^ 63"
    and "- (2 ^ 63) \<le> sint (ProofWaitingPeriod k ctx) * sint (SessionFrequency k ctx) + sint sessionBlockHeight"
    and "sint (ProofWaitingPeriod k ctx) * sint (SessionFrequency k ctx) + sint sessionBlockHeight < 2 ^ 63"
  shows "ProofIsReadyToClaim k ctx sessionBlockHeight =
         (sint sessionBlockHeight + sint (ProofWaitingPeriod k ctx) * sint (SessionFrequency k ctx)
            \<le> sint (BlockHeight ctx))"
proof -
  let ?p = "ProofWaitingPeriod k ctx" and ?f = "SessionFrequency k ctx"
  have m: "sint (?p * ?f) = sint ?p * sint ?f"
    using assms(1,2) by (simp add: sint_word_ariths signed_take_bit_int_eq_self)
  have "sint (?p * ?f + sessionBlockHeight) = sint ?p * sint ?f + sint sessionBlockHeight"
    using assms(3,4) m by (simp add: sint_word_ariths signed_take_bit_int_eq_self)
  then show ?thesis
    by (simp add: ProofIsReadyToClaim_def word_sle_eq Let_def add.commute)
qed

text \<open>
  \<open>GetMatureUnverifiedProofs\<close> never reads a stored claim: it panics on the first
  entry when the codec rejects a value that is no pointer, and otherwise tests the zero
  message's height \<open>0\<close> once per entry and returns copies of the zero message.
\<close>

lemma GetMatureUnverifiedProofs_loop_strict:
  "cdc_rejects_value k \<Longrightarrow>
   GetMatureUnverifiedProofs_loop k ctx entries msg acc =
     (if entries = [] then Returned acc else Panicked UnmarshalPanic)"
  by (cases entries) (simp_all add: MustUnmarshalBinaryBare_value_def)

lemma GetMatureUnverifiedProofs_loop_lenient:
  "\<not> cdc_rejects_value k \<Longrightarrow>
   GetMatureUnverifiedProofs_loop k ctx entries msg acc =
     Returned (acc @ (if ProofIsReadyToClaim k ctx (SessionBlockHeight (MsgProof_Header msg))
                      then replicate (length entries) msg else []))"
proof (induction entries arbitrary: acc)
  case Nil
  show ?case by simp
next
  case (Cons e entries)
  then show ?case
    by (simp add: MustUnmarshalBinaryBare_value_def replicate_app_Cons_same)
qed

lemma GetMatureUnverifiedProofs_result:
  "GetMatureUnverifiedProofs k ctx address =
     (let entries = filter (\<lambda>entry. fst (fst entry) = address) (UnverifiedProofs ctx) in
      if cdc_rejects_value k then (if entries = [] then Returned [] else Panicked UnmarshalPanic)
      else Returned (if ProofIsReadyToClaim k ctx 0
                     then replicate (length entries) MsgProof_zero else []))"
  by (simp add: GetMatureUnverifiedProofs_def GetMatureUnverifiedProofs_loop_strict
      GetMatureUnverifiedProofs_loop_lenient Let_def MsgProof_zero_def Header_zero_def)

text \<open>
  C4.  The claim is that the proof pass selects precisely the claims with
  \<open>sessionBlockHeight + waiting period \<le> h\<close>.  With a waiting period of 75 blocks
  and one claim of the session at height 100 in the state, \<open>ProofIsReadyToClaim\<close>
  holds for the session at height 175 and not at 174, and no claim is mature at
  height 80; \<open>GetMatureUnverifiedProofs\<close> panics there, or, with a codec that lets
  the value pass, returns one zero message because \<open>80 \<ge> 75 + 0\<close>.
\<close>

theorem GetMatureUnverifiedProofs_ignores_stored_claim:
  "ProofIsReadyToClaim example_keeper (state_with_claim 175 100) 100 \<and>
   \<not> ProofIsReadyToClaim example_keeper (state_with_claim 174 100) 100 \<and>
   mature_claims example_keeper (state_with_claim 80 100) example_address = [] \<and>
   GetMatureUnverifiedProofs example_keeper (state_with_claim 80 100) example_address =
     Panicked UnmarshalPanic \<and>
   GetMatureUnverifiedProofs lenient_keeper (state_with_claim 80 100) example_address =
     Returned [MsgProof_zero]"
  by (simp add: mature_claims_def claim_is_mature_def GetMatureUnverifiedProofs_def
      MustUnmarshalBinaryBare_value_def ProofIsReadyToClaim_def example_keeper_params
      state_with_claim_def example_claim_def example_header_def MsgProof_zero_def Header_zero_def)

text \<open>
  C5.  The claim is that the sweep deletes exactly the claims that are
  \<open>unverified_proof_expiration\<close> sessions old.  With sessions of 25 blocks and an
  expiry of 240 sessions, a claim of the session at height 5975 is one session old at
  height 6000 and is deleted (the sweep computes \<open>6000 / 25\<close> from the zero message);
  with the codec that panics, a claim that is 240 sessions old stays, because the sweep
  panics at the first entry.
\<close>

theorem DeleteExpiredUnverifiedProofs_ignores_stored_claim:
  "\<not> claim_is_expired lenient_keeper (state_with_claim 6000 5975) (example_claim 5975) \<and>
   DeleteExpiredUnverifiedProofs lenient_keeper (state_with_claim 6000 5975) =
     Returned ((state_with_claim 6000 5975)\<lparr>UnverifiedProofs := []\<rparr>) \<and>
   claim_is_expired example_keeper (state_with_claim 6100 100) (example_claim 100) \<and>
   DeleteExpiredUnverifiedProofs example_keeper (state_with_claim 6100 100) =
     Panicked UnmarshalPanic"
  by (simp add: claim_is_expired_def claim_age_def DeleteExpiredUnverifiedProofs_def
      MustUnmarshalBinaryBare_value_def example_keeper_params WithBlockHeight_def
      state_with_claim_def example_claim_def example_header_def MsgProof_zero_def Header_zero_def
      go_div_def signed_divide_int_def word_sle_eq)

section \<open>The pass that sends the claims\<close>

lemma SendUnverifiedProofs_loop_dropped:
  assumes "session_dropped k ctx p"
  shows "SendUnverifiedProofs_loop k ctx n proofTx (p # ps) proofs txs =
         SendUnverifiedProofs_loop k ctx n proofTx ps (DeleteProofs proofs (por_Header p)) txs"
  using assms by (simp add: session_dropped_def)

lemma SendUnverifiedProofs_loop_claimed:
  assumes "\<not> session_dropped k ctx p"
    and "GetUnverfiedProof ctx (PrivValidator_Address n) (por_Header p) \<noteq> None"
  shows "SendUnverifiedProofs_loop k ctx n proofTx (p # ps) proofs txs =
         SendUnverifiedProofs_loop k ctx n proofTx ps proofs txs"
  using assms by (auto simp: session_dropped_def)

lemma SendUnverifiedProofs_loop_sent:
  assumes "session_sent k ctx n p" and "proof_tx_of k ctx n proofTx p = Some tx"
  shows "SendUnverifiedProofs_loop k ctx n proofTx (p # ps) proofs txs =
         SendUnverifiedProofs_loop k ctx n proofTx ps proofs (txs @ [tx])"
  using assms
  by (auto simp: session_sent_def session_dropped_def proof_tx_of_def Let_def
      split: outcome.splits option.splits)

lemma SendUnverifiedProofs_loop_panic:
  assumes "session_sent k ctx n p" and "proof_tx_of k ctx n proofTx p = None"
  shows "panicked (SendUnverifiedProofs_loop k ctx n proofTx (p # ps) proofs txs) \<noteq> None"
  using assms
  by (auto simp: session_sent_def session_dropped_def proof_tx_of_def Let_def
      split: outcome.splits option.splits)

lemma SendUnverifiedProofs_loop_panic_broadcast:
  assumes "session_sent k ctx n p" and "proof_tx_of k ctx n proofTx p = None"
  shows "\<forall>tx \<in> set (broadcast (SendUnverifiedProofs_loop k ctx n proofTx (p # ps) proofs txs)).
           tx \<in> set txs \<or> (\<exists>txBuilder root. tx = ProofTx txBuilder (por_Header p) (por_TotalRelays p) root)"
  using assms
  by (auto simp: session_sent_def session_dropped_def proof_tx_of_def Let_def
      split: outcome.splits option.splits)

lemma SendUnverifiedProofs_loop_completes:
  assumes "\<forall>p \<in> set ps. session_sent k ctx n p \<longrightarrow> proof_tx_of k ctx n proofTx p \<noteq> None"
  shows "SendUnverifiedProofs_loop k ctx n proofTx ps proofs txs =
           \<lparr>evidence = filter (\<lambda>q. \<forall>p \<in> set ps. session_dropped k ctx p \<longrightarrow> por_Header p \<noteq> por_Header q) proofs,
            broadcast = txs @ map (\<lambda>p. the (proof_tx_of k ctx n proofTx p)) (filter (session_sent k ctx n) ps),
            panicked = None\<rparr>"
  using assms
proof (induction ps arbitrary: proofs txs)
  case Nil
  show ?case by simp
next
  case (Cons p ps)
  have IH: "\<And>proofs txs. SendUnverifiedProofs_loop k ctx n proofTx ps proofs txs =
           \<lparr>evidence = filter (\<lambda>q. \<forall>p \<in> set ps. session_dropped k ctx p \<longrightarrow> por_Header p \<noteq> por_Header q) proofs,
            broadcast = txs @ map (\<lambda>p. the (proof_tx_of k ctx n proofTx p)) (filter (session_sent k ctx n) ps),
            panicked = None\<rparr>"
    using Cons.IH Cons.prems by simp
  show ?case
  proof (cases "session_dropped k ctx p")
    case True
    then have ns: "\<not> session_sent k ctx n p" by (simp add: session_sent_def)
    show ?thesis
      unfolding SendUnverifiedProofs_loop_dropped [OF True] IH using True ns
      by (auto simp: DeleteProofs_def intro!: filter_cong)
  next
    case False
    note nd = False
    show ?thesis
    proof (cases "GetUnverfiedProof ctx (PrivValidator_Address n) (por_Header p) = None")
      case False
      then have ns: "\<not> session_sent k ctx n p" by (simp add: session_sent_def)
      show ?thesis
        unfolding SendUnverifiedProofs_loop_claimed [OF nd False] IH using nd ns by simp
    next
      case True
      then have s: "session_sent k ctx n p" using nd by (simp add: session_sent_def)
      then obtain tx where tx: "proof_tx_of k ctx n proofTx p = Some tx"
        using Cons.prems by auto
      show ?thesis
        unfolding SendUnverifiedProofs_loop_sent [OF s tx] IH using nd s tx by simp
    qed
  qed
qed

lemma SendUnverifiedProofs_loop_no_panic:
  assumes "panicked (SendUnverifiedProofs_loop k ctx n proofTx ps proofs txs) = None"
  shows "\<forall>p \<in> set ps. session_sent k ctx n p \<longrightarrow> proof_tx_of k ctx n proofTx p \<noteq> None"
  using assms
proof (induction ps arbitrary: proofs txs)
  case Nil
  show ?case by simp
next
  case (Cons p ps)
  show ?case
  proof (cases "session_dropped k ctx p")
    case True
    then have ns: "\<not> session_sent k ctx n p" by (simp add: session_sent_def)
    from Cons.prems have "panicked (SendUnverifiedProofs_loop k ctx n proofTx ps
        (DeleteProofs proofs (por_Header p)) txs) = None"
      by (simp only: SendUnverifiedProofs_loop_dropped [OF True])
    from Cons.IH [OF this] ns show ?thesis by simp
  next
    case False
    note nd = False
    show ?thesis
    proof (cases "GetUnverfiedProof ctx (PrivValidator_Address n) (por_Header p) = None")
      case False
      then have ns: "\<not> session_sent k ctx n p" by (simp add: session_sent_def)
      from Cons.prems have "panicked (SendUnverifiedProofs_loop k ctx n proofTx ps proofs txs) = None"
        by (simp only: SendUnverifiedProofs_loop_claimed [OF nd False])
      from Cons.IH [OF this] ns show ?thesis by simp
    next
      case True
      then have s: "session_sent k ctx n p" using nd by (simp add: session_sent_def)
      show ?thesis
      proof (cases "proof_tx_of k ctx n proofTx p")
        case None
        have "panicked (SendUnverifiedProofs_loop k ctx n proofTx (p # ps) proofs txs) \<noteq> None"
          by (rule SendUnverifiedProofs_loop_panic [OF s None])
        with Cons.prems show ?thesis by blast
      next
        case (Some tx)
        from Cons.prems have "panicked (SendUnverifiedProofs_loop k ctx n proofTx ps proofs (txs @ [tx])) = None"
          by (simp only: SendUnverifiedProofs_loop_sent [OF s Some])
        from Cons.IH [OF this] Some show ?thesis by simp
      qed
    qed
  qed
qed

lemma SendUnverifiedProofs_loop_broadcast:
  assumes "ProofTx txBuilder h totalRelays root \<in>
             set (broadcast (SendUnverifiedProofs_loop k ctx n proofTx ps proofs txs))"
  shows "ProofTx txBuilder h totalRelays root \<in> set txs \<or>
         (\<exists>p \<in> set ps. \<not> session_dropped k ctx p \<and> h = por_Header p)"
  using assms
proof (induction ps arbitrary: proofs txs)
  case Nil
  then show ?case by simp
next
  case (Cons p ps)
  show ?case
  proof (cases "session_dropped k ctx p")
    case True
    from Cons.prems have "ProofTx txBuilder h totalRelays root \<in> set (broadcast
        (SendUnverifiedProofs_loop k ctx n proofTx ps (DeleteProofs proofs (por_Header p)) txs))"
      by (simp only: SendUnverifiedProofs_loop_dropped [OF True])
    from Cons.IH [OF this] show ?thesis by auto
  next
    case False
    note nd = False
    show ?thesis
    proof (cases "GetUnverfiedProof ctx (PrivValidator_Address n) (por_Header p) = None")
      case False
      from Cons.prems have "ProofTx txBuilder h totalRelays root \<in> set (broadcast
          (SendUnverifiedProofs_loop k ctx n proofTx ps proofs txs))"
        by (simp only: SendUnverifiedProofs_loop_claimed [OF nd False])
      from Cons.IH [OF this] show ?thesis by auto
    next
      case True
      then have s: "session_sent k ctx n p" using nd by (simp add: session_sent_def)
      show ?thesis
      proof (cases "proof_tx_of k ctx n proofTx p")
        case None
        from SendUnverifiedProofs_loop_panic_broadcast [OF s None, of ps proofs txs] Cons.prems
        have "ProofTx txBuilder h totalRelays root \<in> set txs \<or> h = por_Header p" by blast
        with nd show ?thesis by auto
      next
        case (Some tx)
        then have txh: "\<exists>tb r. tx = ProofTx tb (por_Header p) (por_TotalRelays p) r"
          by (auto simp: proof_tx_of_def split: outcome.splits option.splits)
        from Cons.prems have "ProofTx txBuilder h totalRelays root \<in> set (broadcast
            (SendUnverifiedProofs_loop k ctx n proofTx ps proofs (txs @ [tx])))"
          by (simp only: SendUnverifiedProofs_loop_sent [OF s Some])
        from Cons.IH [OF this] txh nd show ?thesis by auto
      qed
    qed
  qed
qed


text \<open>The pass on the example stores.\<close>

lemma example_keeper_driver:
  "IsPocketSupportedBlockchain example_keeper ctx chain = (chain = ''0021'')"
  "GetMerkleRoot example_keeper t = (case t of [] \<Rightarrow> None | leaf # rest \<Rightarrow> Some leaf)"
  "newTxBuilderAndCliCtx example_keeper ctx example_node = Returned example_txBuilder"
  "PrivValidator_Address example_node = example_address"
  by (simp_all add: example_keeper_def newTxBuilderAndCliCtx_def example_node_def
      example_txBuilder_def)

lemma SendUnverifiedProofs_example:
  "SendUnverifiedProofs example_keeper (example_context 125) example_node accepting_tx example_store =
     \<lparr>evidence = [example_session ''0021'' [example_leaf]],
      broadcast = [ProofTx example_txBuilder (example_header\<lparr>Chain := ''0021''\<rparr>) 1 (bytes_of_string ''5c'')],
      panicked = None\<rparr>"
  by (simp add: SendUnverifiedProofs_def example_store_def example_session_def example_keeper_driver
      GetUnverfiedProof_def example_context_def DeleteProofs_def example_header_def
      accepting_tx_def example_leaf_def word_sless_alt)


lemma SendUnverifiedProofs_accountless:
  "SendUnverifiedProofs accountless_keeper (example_context 125) example_node accepting_tx
     [example_session ''0021'' [example_leaf], example_session ''00aa'' [example_leaf]] =
     \<lparr>evidence = [example_session ''0021'' [example_leaf], example_session ''00aa'' [example_leaf]],
      broadcast = [], panicked = Some AccountPanic\<rparr>"
proof -
  have "IsPocketSupportedBlockchain accountless_keeper ctx chain = (chain = ''0021'')" for ctx chain
    by (simp add: accountless_keeper_def example_keeper_def)
  moreover have "newTxBuilderAndCliCtx accountless_keeper ctx example_node = Panicked AccountPanic" for ctx
    by (simp add: accountless_keeper_def newTxBuilderAndCliCtx_def)
  ultimately show ?thesis
    by (simp add: SendUnverifiedProofs_def example_session_def example_keeper_driver
        GetUnverfiedProof_def example_context_def example_header_def)
qed

lemma evidence_store_ok_relays:
  assumes "evidence_store_ok proofs" and "p \<in> set proofs"
  shows "0 <s por_TotalRelays p"
proof -
  from assms have ne: "por_Proofs p \<noteq> []" and lt: "length (por_Proofs p) < 2 ^ 63"
    and tr: "por_TotalRelays p = of_nat (length (por_Proofs p))"
    by (auto simp: evidence_store_ok_def)
  have "sint (por_TotalRelays p) = int (length (por_Proofs p))"
    unfolding tr using lt by (rule sint_of_nat_small)
  then show ?thesis using ne by (simp add: word_sless_alt)
qed

lemma example_store_ok: "evidence_store_ok example_store"
  by (simp add: evidence_store_ok_def example_store_def example_session_def example_header_def)

lemma example_store_other_order_ok:
  "evidence_store_ok [example_session ''0021'' [example_leaf], example_session ''00aa'' [example_leaf]]"
  by (simp add: evidence_store_ok_def example_session_def example_header_def)

text \<open>
  C3, as the code has it.  For a session of the evidence store whose chain is not
  supported at the session's height, the pass hands over no transaction for the
  session's header, and a pass that runs to its end has deleted the session's evidence.
  This holds in whatever order the pass visits the sessions.
\<close>

theorem SendUnverifiedProofs_drops_unsupported:
  assumes "evidence_store_ok proofs"
    and "p \<in> set proofs"
    and "\<not> IsPocketSupportedBlockchain k
            (WithBlockHeight ctx (SessionBlockHeight (por_Header p))) (Chain (por_Header p))"
  shows "(\<forall>txBuilder totalRelays root. ProofTx txBuilder (por_Header p) totalRelays root \<notin>
            set (broadcast (SendUnverifiedProofs k ctx n proofTx proofs))) \<and>
         (panicked (SendUnverifiedProofs k ctx n proofTx proofs) = None \<longrightarrow>
            por_Header p \<notin> por_Header ` set (evidence (SendUnverifiedProofs k ctx n proofTx proofs)))"
proof -
  have d: "session_dropped k ctx p"
    using assms(3) evidence_store_ok_relays [OF assms(1,2)] by (simp add: session_dropped_def)
  have inj: "inj_on por_Header (set proofs)"
    using assms(1) by (simp add: evidence_store_ok_def distinct_map)
  have a: "ProofTx txBuilder (por_Header p) totalRelays root \<notin>
            set (broadcast (SendUnverifiedProofs k ctx n proofTx proofs))" for txBuilder totalRelays root
  proof
    assume "ProofTx txBuilder (por_Header p) totalRelays root \<in>
            set (broadcast (SendUnverifiedProofs k ctx n proofTx proofs))"
    then have "\<exists>q \<in> set proofs. \<not> session_dropped k ctx q \<and> por_Header p = por_Header q"
      using SendUnverifiedProofs_loop_broadcast [of txBuilder "por_Header p" totalRelays root k ctx n proofTx proofs proofs "[]"]
      by (simp add: SendUnverifiedProofs_def)
    then obtain q where q: "q \<in> set proofs" "\<not> session_dropped k ctx q" "por_Header p = por_Header q"
      by blast
    from inj q(1,3) assms(2) have "p = q" by (auto dest: inj_onD)
    with q(2) d show False by simp
  qed
  have b: "por_Header p \<notin> por_Header ` set (evidence (SendUnverifiedProofs k ctx n proofTx proofs))"
    if np: "panicked (SendUnverifiedProofs k ctx n proofTx proofs) = None"
  proof -
    from np have ok: "\<forall>p \<in> set proofs. session_sent k ctx n p \<longrightarrow> proof_tx_of k ctx n proofTx p \<noteq> None"
      unfolding SendUnverifiedProofs_def by (rule SendUnverifiedProofs_loop_no_panic)
    show ?thesis
      unfolding SendUnverifiedProofs_def SendUnverifiedProofs_loop_completes [OF ok]
      using d assms(2) by auto
  qed
  from a b show ?thesis by blast
qed

theorem SendUnverifiedProofs_drops_unsupported_witness:
  "evidence_store_ok example_store \<and>
   example_session ''00aa'' [example_leaf] \<in> set example_store \<and>
   \<not> IsPocketSupportedBlockchain example_keeper
        (WithBlockHeight (example_context 125)
           (SessionBlockHeight (por_Header (example_session ''00aa'' [example_leaf]))))
        (Chain (por_Header (example_session ''00aa'' [example_leaf]))) \<and>
   panicked (SendUnverifiedProofs example_keeper (example_context 125) example_node accepting_tx
               example_store) = None \<and>
   (\<forall>txBuilder totalRelays root.
      ProofTx txBuilder (por_Header (example_session ''00aa'' [example_leaf])) totalRelays root \<notin>
        set (broadcast (SendUnverifiedProofs example_keeper (example_context 125) example_node
                          accepting_tx example_store))) \<and>
   por_Header (example_session ''00aa'' [example_leaf]) \<notin>
     por_Header ` set (evidence (SendUnverifiedProofs example_keeper (example_context 125)
                                   example_node accepting_tx example_store))"
proof -
  have h2: "example_session ''00aa'' [example_leaf] \<in> set example_store"
    by (simp add: example_store_def)
  have h3: "\<not> IsPocketSupportedBlockchain example_keeper
        (WithBlockHeight (example_context 125)
           (SessionBlockHeight (por_Header (example_session ''00aa'' [example_leaf]))))
        (Chain (por_Header (example_session ''00aa'' [example_leaf])))"
    by (simp add: example_keeper_driver example_session_def)
  have np: "panicked (SendUnverifiedProofs example_keeper (example_context 125) example_node accepting_tx
               example_store) = None"
    by (simp add: SendUnverifiedProofs_example)
  from SendUnverifiedProofs_drops_unsupported [OF example_store_ok h2 h3, of example_node accepting_tx]
    np example_store_ok h2 h3
  show ?thesis by blast
qed

text \<open>
  C3, as stated, fails when the pass does not reach the session: every step after the
  two skipping branches panics on an error, and a panic ends the pass with the sessions
  it has not visited yet still in memory.  Here the store holds a session on the
  supported chain \<open>0021\<close> and one on the unsupported chain \<open>00aa\<close>, each with one
  relay; the pass visits the first one first, the node's account is not found, and the
  evidence of the session on \<open>00aa\<close> stays.
\<close>

theorem SendUnverifiedProofs_panic_keeps_unsupported_session:
  "evidence_store_ok [example_session ''0021'' [example_leaf], example_session ''00aa'' [example_leaf]] \<and>
   \<not> IsPocketSupportedBlockchain accountless_keeper
        (WithBlockHeight (example_context 125)
           (SessionBlockHeight (por_Header (example_session ''00aa'' [example_leaf]))))
        (Chain (por_Header (example_session ''00aa'' [example_leaf]))) \<and>
   panicked (SendUnverifiedProofs accountless_keeper (example_context 125) example_node
               accepting_tx
               [example_session ''0021'' [example_leaf], example_session ''00aa'' [example_leaf]]) =
     Some AccountPanic \<and>
   example_session ''00aa'' [example_leaf] \<in>
     set (evidence (SendUnverifiedProofs accountless_keeper (example_context 125) example_node
            accepting_tx
            [example_session ''0021'' [example_leaf], example_session ''00aa'' [example_leaf]]))"
proof -
  have b: "\<not> IsPocketSupportedBlockchain accountless_keeper
        (WithBlockHeight (example_context 125)
           (SessionBlockHeight (por_Header (example_session ''00aa'' [example_leaf]))))
        (Chain (por_Header (example_session ''00aa'' [example_leaf])))"
    by (simp add: accountless_keeper_def example_keeper_def example_session_def)
  from b example_store_other_order_ok show ?thesis
    by (simp add: SendUnverifiedProofs_accountless)
qed

section \<open>The pass that sends the proofs\<close>


















section \<open>Running a pass twice\<close>




end
